theory Spec2Isabelle
  imports Main "HOL-Library.Multiset" "HOL-Library.Dlist"
begin

section \<open>The endpoints watcher of the k8s resolver (pkg/resolvers/k8s/watcher.go)\<close>

subsection \<open>Errors\<close>

text \<open>
  Go errors as values. \<open>Canceled\<close> is \<^verbatim>\<open>context.Canceled\<close>, the only value
  \<^verbatim>\<open>ctx.Err()\<close> can take here besides nil (the context comes from
  \<^verbatim>\<open>context.WithCancel(context.Background())\<close>). \<open>Errorf\<close> is
  \<^verbatim>\<open>errors.Errorf\<close> with its message, and stands for any other leaf error a
  collaborator hands over; \<open>Wrap\<close> is \<^verbatim>\<open>errors.Wrap\<close> of github.com/pkg/errors.
\<close>

datatype error = Canceled | Errorf string | Wrap error string

definition alreadyStoppedMsg :: string where
  "alreadyStoppedMsg =
     ''k8sresolver: watcher.Next already stopped or Next returned error already. '' @
     ''Note that watcher errors are not recoverable.''"

definition eventStreamMsg :: string where
  "eventStreamMsg = ''k8sresolver: error on reading event stream''"

definition convertMsg :: string where
  "convertMsg = ''k8sresolver: failed to convert k8s endpoint subset to update Addr''"

definition noPortMsg :: string where
  "noPortMsg = ''retrieved subset update contains no port''"

text \<open>The error kinds the specification names, as the values the code builds.\<close>

definition AlreadyStoppedError :: error where
  "AlreadyStoppedError = Wrap Canceled alreadyStoppedMsg"

definition CancelledError :: error where
  "CancelledError = Canceled"

definition EventStreamError :: "error \<Rightarrow> error" where
  "EventStreamError cause = Wrap cause eventStreamMsg"

definition NoPortError :: error where
  "NoPortError = Wrap (Errorf noPortMsg) convertMsg"

subsection \<open>Data: the decoded endpoints object, the target, the updates\<close>

record metadata =
  Name :: string
  ResourceVersion :: string

record address =
  IP :: string

text \<open>The port number is a Go \<^verbatim>\<open>int\<close>; its decimal rendering is all the code uses.\<close>

record port =
  Name :: string
  Port :: int

record subset =
  Addresses :: "address list"
  Ports :: "port list"

record endpoints =
  Kind :: string
  APIVersion :: string
  Metadata :: metadata
  Subsets :: "subset list"
  Status :: string
  Message :: string
  Code :: int

text \<open>
  Modelled from the spec: the declarations of \<^verbatim>\<open>event\<close>, \<^verbatim>\<open>targetPort\<close>,
  \<^verbatim>\<open>targetEntry\<close> and \<^verbatim>\<open>noTargetPort\<close> are not in watcher.go. An event
  carries the endpoints object that \<^verbatim>\<open>next\<close> reads as \<^verbatim>\<open>event.Object\<close>; a target
  port has the two fields the code reads, \<^verbatim>\<open>isNamed\<close> and \<^verbatim>\<open>value\<close> (written
  \<open>portValue\<close> here), and the unset target port is the zero value of that struct;
  of a target entry the code reads the field \<^verbatim>\<open>port\<close> only.
\<close>

record event =
  Object :: endpoints

record targetPort =
  isNamed :: bool
  portValue :: string

record targetEntry =
  port :: targetPort

definition noTargetPort :: targetPort where
  "noTargetPort = \<lparr>isNamed = False, portValue = []\<rparr>"

text \<open>
  \<^verbatim>\<open>naming.Update\<close> of grpc: the operation, the address and the metadata, an
  \<^verbatim>\<open>interface{}\<close> that the code fills with the map's value \<^verbatim>\<open>struct{}{}\<close> for
  an added address and with nil for a deleted one.
\<close>

datatype Operation = Add | Delete

datatype md = MdNil | MdEmptyStruct

record Update =
  Op :: Operation
  Addr :: string
  Metadata :: md

record watchResult =
  ep :: "event option"
  err :: "error option"

text \<open>
  The watcher. \<open>cancelled\<close> is the state of the context: \<^verbatim>\<open>w.cancel()\<close> sets
  it and nothing clears it. The channel \<^verbatim>\<open>watchChange\<close> belongs to the event
  source; what it delivers is an input of each call. \<^verbatim>\<open>lastUpdates\<close> is a
  \<^verbatim>\<open>map[string]struct{}\<close>, a finite set of keys: a list without duplicates.
\<close>

record watcher =
  cancelled :: bool
  target :: targetEntry
  lastUpdates :: "string dlist"

subsection \<open>Library functions of Go\<close>

text \<open>\<^verbatim>\<open>strconv.Itoa\<close>: the decimal digits, with a minus sign for a negative number.\<close>

definition digit :: "nat \<Rightarrow> char" where
  "digit d = char_of (48 + d)"

function digits :: "nat \<Rightarrow> string" where
  "digits n = (if n < 10 then [digit n] else digits (n div 10) @ [digit (n mod 10)])"
  by pat_completeness auto
termination
  by (relation "measure id") auto

definition Itoa :: "int \<Rightarrow> string" where
  "Itoa i = (if i < 0 then CHR ''-'' # digits (nat (- i)) else digits (nat i))"

text \<open>
  \<^verbatim>\<open>net.JoinHostPort\<close>: a host with a colon in it is taken for an IPv6 literal and
  put in brackets.
\<close>

definition JoinHostPort :: "string \<Rightarrow> string \<Rightarrow> string" where
  "JoinHostPort host p =
     (if CHR '':'' \<in> set host then ''['' @ host @ '']:'' @ p else host @ '':'' @ p)"

text \<open>
  Ranging over a Go map visits the keys in an order the language leaves open, and
  that may differ from one loop to the next. The order is an input of the model: a
  list of picks, each taking (modulo the number left) one of the keys not yet visited;
  when the picks run out the rest comes as stored.
\<close>

fun pick :: "nat list \<Rightarrow> 'a list \<Rightarrow> 'a list" where
  "pick ns [] = []"
| "pick [] (x # xs) = x # xs"
| "pick (n # ns) (x # xs) =
     (let i = n mod length (x # xs)
      in (x # xs) ! i # pick ns (take i (x # xs) @ drop (Suc i) (x # xs)))"

definition rangeKeys :: "nat list \<Rightarrow> 'a dlist \<Rightarrow> 'a list" where
  "rangeKeys order m = pick order (list_of_dlist m)"

subsection \<open>Address resolution\<close>

text \<open>
  The loop over \<^verbatim>\<open>sub.Ports\<close> of the named branch: \<^verbatim>\<open>port\<close> starts as the empty
  string and takes the number of the first entry with the wanted name.
\<close>

fun namedPort :: "string \<Rightarrow> port list \<Rightarrow> string" where
  "namedPort v [] = []"
| "namedPort v (p # ps) = (if port.Name p = v then Itoa (Port p) else namedPort v ps)"

definition subsetToAddresses :: "targetEntry \<Rightarrow> subset \<Rightarrow> error + string list" where
  "subsetToAddresses t sub =
     (if length (Ports sub) = 0 then Inl (Errorf noPortMsg)
      else
        let p = (if port t = noTargetPort then Itoa (Port (Ports sub ! 0))
                 else if isNamed (port t) then namedPort (portValue (port t)) (Ports sub)
                 else portValue (port t))
        in Inr (map (\<lambda>a. JoinHostPort (IP a) p) (Addresses sub)))"

subsection \<open>The watcher's operations\<close>

text \<open>
  \<^verbatim>\<open>startNewWatcher\<close>. Whether \<^verbatim>\<open>startWatchingEndpointsChanges\<close> (not in
  watcher.go) fails is an input: its error, or none.
\<close>

definition startNewWatcher :: "targetEntry \<Rightarrow> error option \<Rightarrow> error + watcher" where
  "startNewWatcher t started =
     (case started of
        Some e \<Rightarrow> Inl e
      | None \<Rightarrow> Inr \<lparr>cancelled = False, target = t, lastUpdates = Dlist.empty\<rparr>)"

definition Close :: "watcher \<Rightarrow> watcher" where
  "Close w = w\<lparr>cancelled := True\<rparr>"

definition ctxErr :: "watcher \<Rightarrow> error option" where
  "ctxErr w = (if cancelled w then Some Canceled else None)"

text \<open>
  What the \<^verbatim>\<open>select\<close> of \<^verbatim>\<open>next\<close> takes: the context is done, the channel
  delivers a result, or neither ever happens and the call blocks for good.
\<close>

datatype selected = SelCtxDone | SelRecv watchResult | SelNone

record choice =
  sel :: selected
  addOrder :: "nat list"
  delOrder :: "nat list"

text \<open>
  The result of a call: the updates with a nil error, a non-nil error (with the nil
  slice), the run-time panic of dereferencing a nil \<^verbatim>\<open>r.ep\<close>, or no return.
\<close>

datatype outcome = Ok "Update list" | Err error | Panic | Hangs

text \<open>The first loop of \<^verbatim>\<open>next\<close>: every subset's addresses go into the new map.\<close>

fun resolveSubsets :: "targetEntry \<Rightarrow> subset list \<Rightarrow> string dlist \<Rightarrow> error + string dlist" where
  "resolveSubsets t [] updatedEndpoints = Inr updatedEndpoints"
| "resolveSubsets t (s # ss) updatedEndpoints =
     (case subsetToAddresses t s of
        Inl e \<Rightarrow> Inl (Wrap e convertMsg)
      | Inr updatedAddresses \<Rightarrow>
          resolveSubsets t ss (fold Dlist.insert updatedAddresses updatedEndpoints))"

text \<open>The second and third loop: the updates that add new and delete old endpoints.\<close>

definition addUpdates :: "nat list \<Rightarrow> string dlist \<Rightarrow> string dlist \<Rightarrow> Update list" where
  "addUpdates order lastU updatedEndpoints =
     map (\<lambda>addr. \<lparr>Op = Add, Addr = addr, Metadata = MdEmptyStruct\<rparr>)
       (filter (\<lambda>addr. \<not> Dlist.member lastU addr) (rangeKeys order updatedEndpoints))"

definition deleteUpdates :: "nat list \<Rightarrow> string dlist \<Rightarrow> string dlist \<Rightarrow> Update list" where
  "deleteUpdates order lastU updatedEndpoints =
     map (\<lambda>addr. \<lparr>Op = Delete, Addr = addr, Metadata = MdNil\<rparr>)
       (filter (\<lambda>addr. \<not> Dlist.member updatedEndpoints addr) (rangeKeys order lastU))"

text \<open>
  \<^verbatim>\<open>next\<close>. The branch of a done context is taken when the context was cancelled
  before or, by a concurrent \<^verbatim>\<open>Close\<close>, while the call waited: either way the
  context is cancelled afterwards. A cancelled context cannot leave the select
  blocked.
\<close>

definition next' :: "choice \<Rightarrow> watcher \<Rightarrow> outcome \<times> watcher" where
  "next' c w =
     (case sel c of
        SelCtxDone \<Rightarrow> (Err Canceled, w\<lparr>cancelled := True\<rparr>)
      | SelNone \<Rightarrow> (if cancelled w then (Err Canceled, w) else (Hangs, w))
      | SelRecv r \<Rightarrow>
          (case err r of
             Some e \<Rightarrow> (Err (Wrap e eventStreamMsg), w)
           | None \<Rightarrow>
               (case ep r of
                  None \<Rightarrow> (Panic, w)
                | Some ev \<Rightarrow>
                    (case resolveSubsets (target w) (Subsets (Object ev)) Dlist.empty of
                       Inl e \<Rightarrow> (Err e, w)
                     | Inr updatedEndpoints \<Rightarrow>
                         (Ok (addUpdates (addOrder c) (lastUpdates w) updatedEndpoints @
                              deleteUpdates (delOrder c) (lastUpdates w) updatedEndpoints),
                          w\<lparr>lastUpdates := updatedEndpoints\<rparr>)))))"

definition Next :: "choice \<Rightarrow> watcher \<Rightarrow> outcome \<times> watcher" where
  "Next c w =
     (case ctxErr w of
        Some e \<Rightarrow> (Err (Wrap e alreadyStoppedMsg), w)
      | None \<Rightarrow>
          (case next' c w of
             (Err e, w') \<Rightarrow> (Err e, Close w')
           | (u, w') \<Rightarrow> (u, w')))"

text \<open>A sequence of calls of \<^verbatim>\<open>Next\<close> on one watcher, with the results in order.\<close>

fun calls :: "choice list \<Rightarrow> watcher \<Rightarrow> outcome list \<times> watcher" where
  "calls [] w = ([], w)"
| "calls (c # cs) w =
     (case Next c w of (u, w') \<Rightarrow> (case calls cs w' of (us, w'') \<Rightarrow> (u # us, w'')))"

subsection \<open>Notions for stating the properties\<close>

text \<open>The keys of a map, the addresses one subset resolves to, and the two shapes of update.\<close>

definition keys :: "'a dlist \<Rightarrow> 'a set" where
  "keys m = set (list_of_dlist m)"

definition addressesOf :: "targetEntry \<Rightarrow> subset \<Rightarrow> string set" where
  "addressesOf t s = (case subsetToAddresses t s of Inl e \<Rightarrow> {} | Inr as \<Rightarrow> set as)"

definition addOf :: "string \<Rightarrow> Update" where
  "addOf a = \<lparr>Op = Add, Addr = a, Metadata = MdEmptyStruct\<rparr>"

definition deleteOf :: "string \<Rightarrow> Update" where
  "deleteOf a = \<lparr>Op = Delete, Addr = a, Metadata = MdNil\<rparr>"

text \<open>Concrete inputs: an endpoints object around given subsets, and the choices of a call.\<close>

definition endpointsOf :: "subset list \<Rightarrow> endpoints" where
  "endpointsOf ss =
     \<lparr>Kind = ''Endpoints'', APIVersion = ''v1'',
      Metadata = \<lparr>metadata.Name = ''svc'', ResourceVersion = ''7''\<rparr>,
      Subsets = ss, Status = [], Message = [], Code = 0\<rparr>"

definition received :: "subset list \<Rightarrow> nat list \<Rightarrow> nat list \<Rightarrow> choice" where
  "received ss ao dl =
     \<lparr>sel = SelRecv \<lparr>ep = Some \<lparr>Object = endpointsOf ss\<rparr>, err = None\<rparr>,
      addOrder = ao, delOrder = dl\<rparr>"

definition httpSubset :: "string list \<Rightarrow> subset" where
  "httpSubset ips = \<lparr>Addresses = map (\<lambda>ip. \<lparr>IP = ip\<rparr>) ips, Ports = [\<lparr>Name = ''http'', Port = 80\<rparr>]\<rparr>"

definition noPortSubset :: "string list \<Rightarrow> subset" where
  "noPortSubset ips = \<lparr>Addresses = map (\<lambda>ip. \<lparr>IP = ip\<rparr>) ips, Ports = []\<rparr>"

definition freshWatcher :: "targetEntry \<Rightarrow> watcher" where
  "freshWatcher t = \<lparr>cancelled = False, target = t, lastUpdates = Dlist.empty\<rparr>"

definition firstPortTarget :: targetEntry where
  "firstPortTarget = \<lparr>port = noTargetPort\<rparr>"

definition grpcTarget :: targetEntry where
  "grpcTarget = \<lparr>port = \<lparr>isNamed = True, portValue = ''grpc''\<rparr>\<rparr>"

definition servingTwo :: watcher where
  "servingTwo =
     \<lparr>cancelled = False, target = firstPortTarget,
      lastUpdates = Dlist [''10.0.0.1:80'', ''10.0.0.2:80'']\<rparr>"

definition streamBroken :: choice where
  "streamBroken =
     \<lparr>sel = SelRecv \<lparr>ep = None, err = Some (Errorf ''unexpected EOF'')\<rparr>,
      addOrder = [], delOrder = []\<rparr>"

definition ctxDone :: choice where
  "ctxDone = \<lparr>sel = SelCtxDone, addOrder = [], delOrder = []\<rparr>"

section \<open>Properties\<close>

subsection \<open>The range order is a permutation of the keys\<close>

lemma mset_pick: "mset (pick ns xs) = mset xs"
proof (induction ns xs rule: pick.induct)
  case (3 n ns x xs)
  define l where "l = x # xs"
  define i where "i = n mod length l"
  have i: "i < length l" unfolding i_def l_def by simp
  have step: "pick (n # ns) l = l ! i # pick ns (take i l @ drop (Suc i) l)"
    unfolding l_def i_def by (simp only: pick.simps Let_def)
  have ih: "mset (pick ns (take i l @ drop (Suc i) l)) = mset (take i l @ drop (Suc i) l)"
    using 3 unfolding l_def i_def by blast
  have "mset l = mset (take i l @ l ! i # drop (Suc i) l)"
    using id_take_nth_drop [OF i] by simp
  then show ?case
    unfolding l_def [symmetric] by (simp add: step ih)
qed simp_all

text \<open>Every order of the keys is the result of some list of picks.\<close>

lemma pick_reaches_every_order: "mset ys = mset xs \<Longrightarrow> \<exists>ns. pick ns xs = ys"
proof (induction ys arbitrary: xs)
  case Nil
  then show ?case by simp
next
  case (Cons y ys)
  then have "y \<in> set xs" by (metis list.set_intros(1) set_mset_mset)
  then obtain i where i: "i < length xs" "xs ! i = y" by (auto simp: in_set_conv_nth)
  then obtain x xs' where xs: "xs = x # xs'" by (cases xs) auto
  have "xs = take i xs @ y # drop (Suc i) xs" using id_take_nth_drop i by blast
  then have "mset xs = mset (take i xs @ drop (Suc i) xs) + {#y#}"
    by (metis add_mset_add_single mset.simps(2) mset_append union_mset_add_mset_right)
  with Cons.prems have "mset ys = mset (take i xs @ drop (Suc i) xs)" by simp
  from Cons.IH [OF this] obtain ns where ns: "pick ns (take i xs @ drop (Suc i) xs) = ys" ..
  have "pick (i # ns) xs = y # ys"
    using i ns unfolding xs by (simp add: Let_def del: take_Suc_Cons drop_Suc_Cons nth_Cons_Suc)
  then show ?case ..
qed

lemma mset_rangeKeys: "mset (rangeKeys order m) = mset_set (keys m)"
  by (simp add: rangeKeys_def mset_pick keys_def mset_set_set)

lemma set_rangeKeys: "set (rangeKeys order m) = keys m"
  using mset_rangeKeys [of order m] by (metis finite_set_mset_mset_set keys_def List.finite_set set_mset_mset)

lemma distinct_rangeKeys: "distinct (rangeKeys order m)"
  unfolding rangeKeys_def
  using mset_pick [of order "list_of_dlist m"] distinct_list_of_dlist [of m]
  by (metis mset_eq_imp_distinct_iff)

lemma finite_keys: "finite (keys m)"
  by (simp add: keys_def)

lemma member_keys: "Dlist.member m a \<longleftrightarrow> a \<in> keys m"
  by (simp add: Dlist.member_def keys_def)

lemma keys_empty: "keys Dlist.empty = {}"
  by (simp add: keys_def)

lemma keys_fold_insert: "keys (fold Dlist.insert as m) = keys m \<union> set as"
  by (induction as arbitrary: m) (auto simp: keys_def)

lemma mset_addUpdates:
  "mset (addUpdates order lastU new) = image_mset addOf (mset_set (keys new - keys lastU))"
proof -
  have "{a \<in> keys new. a \<notin> keys lastU} = keys new - keys lastU" by auto
  then show ?thesis
    unfolding addUpdates_def addOf_def [abs_def, symmetric]
    by (simp add: mset_filter mset_rangeKeys member_keys finite_keys filter_mset_mset_set)
qed

lemma mset_deleteUpdates:
  "mset (deleteUpdates order lastU new) = image_mset deleteOf (mset_set (keys lastU - keys new))"
proof -
  have "{a \<in> keys lastU. a \<notin> keys new} = keys lastU - keys new" by auto
  then show ?thesis
    unfolding deleteUpdates_def deleteOf_def [abs_def, symmetric]
    by (simp add: mset_filter mset_rangeKeys member_keys finite_keys filter_mset_mset_set)
qed

lemma Addr_addUpdates:
  "map Addr (addUpdates order lastU new) = filter (\<lambda>a. a \<notin> keys lastU) (rangeKeys order new)"
  by (simp add: addUpdates_def member_keys comp_def)

lemma Addr_deleteUpdates:
  "map Addr (deleteUpdates order lastU new) = filter (\<lambda>a. a \<notin> keys new) (rangeKeys order lastU)"
  by (simp add: deleteUpdates_def member_keys comp_def)

lemma subsetToAddresses_Inl:
  "subsetToAddresses t s = Inl e \<longleftrightarrow> Ports s = [] \<and> e = Errorf noPortMsg"
  by (auto simp: subsetToAddresses_def Let_def)

lemma resolveSubsets_no_port:
  "\<exists>s \<in> set ss. Ports s = [] \<Longrightarrow> resolveSubsets t ss m = Inl NoPortError"
proof (induction ss arbitrary: m)
  case Nil
  then show ?case by simp
next
  case (Cons s ss)
  show ?case
  proof (cases "subsetToAddresses t s")
    case (Inl e)
    then have "e = Errorf noPortMsg" by (simp add: subsetToAddresses_Inl)
    with Inl show ?thesis by (simp add: NoPortError_def)
  next
    case (Inr as)
    then have "Ports s \<noteq> []" by (auto simp: subsetToAddresses_def split: if_splits)
    with Cons.prems have "\<exists>s \<in> set ss. Ports s = []" by auto
    with Cons.IH Inr show ?thesis by simp
  qed
qed

lemma resolveSubsets_Inl:
  "resolveSubsets t ss m = Inl e \<Longrightarrow> e = NoPortError \<and> (\<exists>s \<in> set ss. Ports s = [])"
proof (induction ss arbitrary: m)
  case Nil
  then show ?case by simp
next
  case (Cons s ss)
  then show ?case
    by (cases "subsetToAddresses t s") (auto simp: subsetToAddresses_Inl NoPortError_def)
qed

lemma resolveSubsets_keys:
  "resolveSubsets t ss m = Inr m' \<Longrightarrow> keys m' = keys m \<union> (\<Union>s \<in> set ss. addressesOf t s)"
proof (induction ss arbitrary: m)
  case Nil
  then show ?case by simp
next
  case (Cons s ss)
  then show ?case
    by (cases "subsetToAddresses t s") (auto simp: keys_fold_insert addressesOf_def)
qed

lemma Next_stopped: "cancelled w \<Longrightarrow> Next c w = (Err AlreadyStoppedError, w)"
  by (simp add: Next_def ctxErr_def AlreadyStoppedError_def)

lemma Close_cancelled: "cancelled w \<Longrightarrow> Close w = w"
  by (simp add: Close_def)

lemma Next_Ok:
  "Next c w = (Ok us, w') \<longleftrightarrow>
     \<not> cancelled w \<and>
     (\<exists>r ev new. sel c = SelRecv r \<and> err r = None \<and> ep r = Some ev \<and>
        resolveSubsets (target w) (Subsets (Object ev)) Dlist.empty = Inr new \<and>
        us = addUpdates (addOrder c) (lastUpdates w) new @
             deleteUpdates (delOrder c) (lastUpdates w) new \<and>
        w' = w\<lparr>lastUpdates := new\<rparr>)"
  by (cases "sel c")
    (auto simp: Next_def next'_def ctxErr_def split: option.splits sum.splits if_splits)

lemma Next_Err:
  "Next c w = (Err e, w') \<Longrightarrow> w' = Close w"
  by (auto simp: Next_def next'_def ctxErr_def Close_def
      split: option.splits sum.splits if_splits selected.splits)

subsection \<open>The named branch when no port has the name\<close>

lemma namedPort_miss:
  "\<forall>p \<in> set ps. port.Name p \<noteq> v \<Longrightarrow> namedPort v ps = []"
  by (induction ps) simp_all

lemma subsetToAddresses_named_miss:
  assumes "Ports sub \<noteq> []" and "isNamed (port t)"
    and "\<forall>p \<in> set (Ports sub). port.Name p \<noteq> portValue (port t)"
  shows "subsetToAddresses t sub = Inr (map (\<lambda>a. JoinHostPort (IP a) []) (Addresses sub))"
proof -
  from assms(2) have "port t \<noteq> noTargetPort" by (auto simp: noTargetPort_def)
  with assms show ?thesis by (simp add: subsetToAddresses_def namedPort_miss)
qed

subsection \<open>Calls of \<^verbatim>\<open>Next\<close>, case by case\<close>

lemma startNewWatcher_started: "startNewWatcher t None = Inr (freshWatcher t)"
  by (simp add: startNewWatcher_def freshWatcher_def)

lemma Itoa_80: "Itoa 80 = ''80''"
  by code_simp

lemma calls_stopped:
  "cancelled w \<Longrightarrow> calls cs w = (replicate (length cs) (Err AlreadyStoppedError), w)"
  by (induction cs) (simp_all add: Next_stopped)

lemma cancelled_Close: "cancelled (Close w)"
  by (simp add: Close_def)

lemma Next_no_port:
  assumes "\<not> cancelled w" and "sel c = SelRecv r" and "err r = None" and "ep r = Some ev"
    and "\<exists>s \<in> set (Subsets (Object ev)). Ports s = []"
  shows "Next c w = (Err NoPortError, Close w)"
  using assms resolveSubsets_no_port [OF assms(5), of "target w" Dlist.empty]
  by (simp add: Next_def next'_def ctxErr_def)

lemma Next_received:
  assumes "\<not> cancelled w" and "sel c = SelRecv r" and "err r = None" and "ep r = Some ev"
    and "resolveSubsets (target w) (Subsets (Object ev)) Dlist.empty = Inr new"
  shows "Next c w =
           (Ok (addUpdates (addOrder c) (lastUpdates w) new @
                deleteUpdates (delOrder c) (lastUpdates w) new),
            w\<lparr>lastUpdates := new\<rparr>)"
  using assms by (simp add: Next_def next'_def ctxErr_def)

lemma Next_Err_cases:
  assumes "Next c w = (Err e, w')"
  shows "e = AlreadyStoppedError \<or> e = CancelledError \<or> e = NoPortError \<or>
         (\<exists>cause. e = EventStreamError cause)"
proof (cases "cancelled w")
  case True
  with assms show ?thesis by (simp add: Next_stopped)
next
  case False
  show ?thesis
  proof (cases "sel c")
    case SelCtxDone
    with False assms show ?thesis
      by (auto simp: Next_def next'_def ctxErr_def CancelledError_def)
  next
    case (SelRecv r)
    with False assms show ?thesis
      by (auto simp: Next_def next'_def ctxErr_def EventStreamError_def
          split: option.splits sum.splits dest: resolveSubsets_Inl)
  next
    case SelNone
    with False assms show ?thesis
      by (auto simp: Next_def next'_def ctxErr_def)
  qed
qed

lemma filter_key_le_1:
  "distinct (map f xs) \<Longrightarrow> length (filter (\<lambda>x. P x \<and> f x = a) xs) \<le> 1"
proof (induction xs)
  case Nil
  then show ?case by simp
next
  case (Cons x xs)
  show ?case
  proof (cases "P x \<and> f x = a")
    case True
    with Cons.prems have "a \<notin> f ` set xs" by auto
    then have "\<forall>y \<in> set xs. f y \<noteq> a" by blast
    then have "filter (\<lambda>x. P x \<and> f x = a) xs = []" by (simp add: filter_empty_conv)
    with True show ?thesis by simp
  next
    case False
    with Cons show ?thesis by auto
  qed
qed

text \<open>The definitions that evaluate a call on a concrete watcher.\<close>

lemmas call_defs =
  Next_def next'_def ctxErr_def Close_def received_def endpointsOf_def httpSubset_def
  noPortSubset_def freshWatcher_def firstPortTarget_def servingTwo_def streamBroken_def
  ctxDone_def subsetToAddresses_def JoinHostPort_def Itoa_80 Let_def addUpdates_def
  deleteUpdates_def rangeKeys_def Dlist.member_def addOf_def deleteOf_def dlist_eq_iff

section \<open>The claims\<close>

subsection \<open>Address resolution\<close>

text \<open>
  C1 (named target port, no port of that name in the subset). The claim is that
  resolution then yields no address for the subset, without failing. The code does
  not fail, but the loop over the ports leaves \<^verbatim>\<open>port\<close> empty and every address
  of the subset is still joined with it: for the target port named grpc and the
  subset with the address 10.0.0.1 and the one port (http, 80), the result is the
  single address \<^verbatim>\<open>10.0.0.1:\<close>, with no port after the colon.
\<close>

theorem named_port_miss_emits_portless:
  "subsetToAddresses grpcTarget (httpSubset [''10.0.0.1'']) = Inr [''10.0.0.1:'']"
  by (simp add: subsetToAddresses_def grpcTarget_def httpSubset_def noTargetPort_def JoinHostPort_def)

text \<open>
  C9 (unset target port). For a subset with at least one port, resolution under an
  unset target port succeeds and returns, for each address of the subset in order,
  \<^verbatim>\<open>JoinHostPort\<close> of its IP and the decimal number of the subset's first port.
\<close>

theorem unset_port_uses_first:
  assumes "Ports sub \<noteq> []" and "port t = noTargetPort"
  shows "subsetToAddresses t sub =
           Inr (map (\<lambda>a. JoinHostPort (IP a) (Itoa (Port (hd (Ports sub))))) (Addresses sub))"
  using assms by (simp add: subsetToAddresses_def hd_conv_nth)

text \<open>
  The same at the subset with the addresses 10.0.0.1 and ::1 and the port (http, 80).
\<close>

theorem unset_port_uses_first_witness:
  "Ports (httpSubset [''10.0.0.1'', ''::1'']) \<noteq> [] \<and> port firstPortTarget = noTargetPort \<and>
   subsetToAddresses firstPortTarget (httpSubset [''10.0.0.1'', ''::1'']) =
     Inr [''10.0.0.1:80'', ''[::1]:80'']"
  using unset_port_uses_first [of "httpSubset [''10.0.0.1'', ''::1'']" firstPortTarget]
  by (simp add: httpSubset_def firstPortTarget_def JoinHostPort_def Itoa_80)

subsection \<open>Errors end the watcher\<close>

text \<open>
  C2 (a subset without ports). On a watcher that is not stopped, a delivered event
  (nil error, non-nil event) with a subset whose port list is empty makes \<^verbatim>\<open>Next\<close>
  return the no-port error; the watcher is cancelled afterwards, and every call of a
  following sequence returns the already-stopped error and leaves the watcher as it is.
\<close>

theorem no_port_event_stops_watcher:
  assumes "\<not> cancelled w" and "sel c = SelRecv r" and "err r = None" and "ep r = Some ev"
    and "s \<in> set (Subsets (Object ev))" and "Ports s = []"
  shows "Next c w = (Err NoPortError, Close w) \<and> cancelled (Close w) \<and>
         calls cs (Close w) = (replicate (length cs) (Err AlreadyStoppedError), Close w)"
proof -
  from assms(5,6) have "\<exists>s \<in> set (Subsets (Object ev)). Ports s = []" by blast
  with assms(1-4) have "Next c w = (Err NoPortError, Close w)" by (rule Next_no_port)
  then show ?thesis by (simp add: cancelled_Close calls_stopped)
qed

text \<open>
  The same at a fresh watcher and an event whose second subset has no port.
\<close>

theorem no_port_event_stops_watcher_witness:
  "\<not> cancelled (freshWatcher firstPortTarget) \<and>
   noPortSubset [''10.0.0.2''] \<in> set [httpSubset [''10.0.0.1''], noPortSubset [''10.0.0.2'']] \<and>
   Ports (noPortSubset [''10.0.0.2'']) = [] \<and>
   Next (received [httpSubset [''10.0.0.1''], noPortSubset [''10.0.0.2'']] [] [])
     (freshWatcher firstPortTarget) = (Err NoPortError, Close (freshWatcher firstPortTarget)) \<and>
   calls [received [httpSubset [''10.0.0.1'']] [] [], ctxDone] (Close (freshWatcher firstPortTarget)) =
     ([Err AlreadyStoppedError, Err AlreadyStoppedError], Close (freshWatcher firstPortTarget))"
  using no_port_event_stops_watcher
    [of "freshWatcher firstPortTarget"
        "received [httpSubset [''10.0.0.1''], noPortSubset [''10.0.0.2'']] [] []"
        "\<lparr>ep = Some \<lparr>Object = endpointsOf [httpSubset [''10.0.0.1''], noPortSubset [''10.0.0.2'']]\<rparr>,
          err = None\<rparr>"
        "\<lparr>Object = endpointsOf [httpSubset [''10.0.0.1''], noPortSubset [''10.0.0.2'']]\<rparr>"
        "noPortSubset [''10.0.0.2'']"
        "[received [httpSubset [''10.0.0.1'']] [] [], ctxDone]"]
  by (simp add: freshWatcher_def received_def endpointsOf_def noPortSubset_def)

text \<open>
  C4 (an error leaves the last known addresses alone). When \<^verbatim>\<open>Next\<close> returns an
  error, the watcher afterwards is the one before with its context cancelled, so
  \<^verbatim>\<open>lastUpdates\<close> is unchanged; and the error is the already-stopped error, the
  cancellation error, the no-port error or an event-stream error.
\<close>

theorem error_keeps_lastUpdates:
  assumes "Next c w = (Err e, w')"
  shows "lastUpdates w' = lastUpdates w \<and> w' = Close w \<and>
         (e = AlreadyStoppedError \<or> e = CancelledError \<or> e = NoPortError \<or>
          (\<exists>cause. e = EventStreamError cause))"
  using Next_Err [OF assms] Next_Err_cases [OF assms] by (simp add: Close_def)

text \<open>
  The same at a watcher that knows two addresses and receives a stream error.
\<close>

theorem error_keeps_lastUpdates_witness:
  "Next streamBroken servingTwo =
     (Err (EventStreamError (Errorf ''unexpected EOF'')), Close servingTwo) \<and>
   lastUpdates (Close servingTwo) = lastUpdates servingTwo"
proof -
  have h: "Next streamBroken servingTwo =
     (Err (EventStreamError (Errorf ''unexpected EOF'')), Close servingTwo)"
    by (simp add: call_defs EventStreamError_def)
  from error_keeps_lastUpdates [OF h] h show ?thesis by blast
qed

text \<open>
  C5 (errors are terminal). Once a call of \<^verbatim>\<open>Next\<close> has returned an error, every
  call of any following sequence returns the already-stopped error, and the watcher
  after the sequence is the watcher before it.
\<close>

theorem error_is_terminal:
  assumes "Next c w = (Err e, w')"
  shows "calls cs w' = (replicate (length cs) (Err AlreadyStoppedError), w')"
  using Next_Err [OF assms] by (simp add: calls_stopped cancelled_Close)

text \<open>
  The same after a cancellation observed by a waiting call.
\<close>

theorem error_is_terminal_witness:
  "Next ctxDone servingTwo = (Err CancelledError, Close servingTwo) \<and>
   calls [received [httpSubset [''10.0.0.9'']] [] [], streamBroken, ctxDone] (Close servingTwo) =
     ([Err AlreadyStoppedError, Err AlreadyStoppedError, Err AlreadyStoppedError],
      Close servingTwo)"
proof -
  have h: "Next ctxDone servingTwo = (Err CancelledError, Close servingTwo)"
    by (simp add: call_defs CancelledError_def)
  from error_is_terminal
    [OF h, of "[received [httpSubset [''10.0.0.9'']] [] [], streamBroken, ctxDone]"] h
  show ?thesis by simp
qed

text \<open>
  C6 (after \<^verbatim>\<open>Close\<close>), as amended: after \<^verbatim>\<open>Close\<close>, a call of \<^verbatim>\<open>Next\<close>
  returns, whatever the select would have taken, the already-stopped error (which
  wraps the context's cancellation error) and the watcher stays cancelled.
\<close>

theorem next_after_close_already_stopped:
  "Next c (Close w) = (Err AlreadyStoppedError, Close w) \<and> cancelled (Close w)"
  by (simp add: Next_stopped cancelled_Close)

text \<open>
  C6 as stated fails: the error of a call after \<^verbatim>\<open>Close\<close> is not the bare
  cancellation error that a waiting call returns, even when the select would have
  seen the done context.
\<close>

theorem next_after_close_not_cancelled_error:
  "fst (Next \<lparr>sel = SelCtxDone, addOrder = [], delOrder = []\<rparr> (Close (freshWatcher firstPortTarget)))
     \<noteq> Err CancelledError"
  by (simp add: Next_stopped cancelled_Close AlreadyStoppedError_def CancelledError_def)

subsection \<open>The updates of a processed event\<close>

text \<open>
  C3 (the difference). When \<^verbatim>\<open>Next\<close> returns updates, they are, as a multiset,
  one add for each address of the new map that is not in the old one and one delete
  for each address of the old map that is not in the new one, and nothing else; the
  new map is what the subsets of the delivered event resolve to.
\<close>

theorem diff_adds_new_deletes_old:
  assumes "Next c w = (Ok us, w')"
  shows "mset us =
           image_mset addOf (mset_set (keys (lastUpdates w') - keys (lastUpdates w))) +
           image_mset deleteOf (mset_set (keys (lastUpdates w) - keys (lastUpdates w'))) \<and>
         (\<exists>r ev. sel c = SelRecv r \<and> err r = None \<and> ep r = Some ev \<and>
            resolveSubsets (target w) (Subsets (Object ev)) Dlist.empty = Inr (lastUpdates w'))"
  using assms unfolding Next_Ok
  by (auto simp: mset_addUpdates mset_deleteUpdates)

text \<open>
  The same at a watcher that knows 10.0.0.1:80 and 10.0.0.2:80 and receives the
  addresses 10.0.0.2 and 10.0.0.3: one add of 10.0.0.3:80, one delete of 10.0.0.1:80.
\<close>

theorem diff_adds_new_deletes_old_witness:
  "Next (received [httpSubset [''10.0.0.2'', ''10.0.0.3'']] [] []) servingTwo =
     (Ok [addOf ''10.0.0.3:80'', deleteOf ''10.0.0.1:80''],
      servingTwo\<lparr>lastUpdates := Dlist [''10.0.0.3:80'', ''10.0.0.2:80'']\<rparr>) \<and>
   mset [addOf ''10.0.0.3:80'', deleteOf ''10.0.0.1:80''] =
     image_mset addOf (mset_set
       (keys (lastUpdates (servingTwo\<lparr>lastUpdates := Dlist [''10.0.0.3:80'', ''10.0.0.2:80'']\<rparr>)) -
        keys (lastUpdates servingTwo))) +
     image_mset deleteOf (mset_set
       (keys (lastUpdates servingTwo) -
        keys (lastUpdates (servingTwo\<lparr>lastUpdates := Dlist [''10.0.0.3:80'', ''10.0.0.2:80'']\<rparr>))))"
proof -
  have h: "Next (received [httpSubset [''10.0.0.2'', ''10.0.0.3'']] [] []) servingTwo =
     (Ok [addOf ''10.0.0.3:80'', deleteOf ''10.0.0.1:80''],
      servingTwo\<lparr>lastUpdates := Dlist [''10.0.0.3:80'', ''10.0.0.2:80'']\<rparr>)"
    by (simp add: call_defs)
  from diff_adds_new_deletes_old [OF h] h show ?thesis by blast
qed

text \<open>
  C7 (the same addresses again). After a processed event, a second delivered event
  that resolves to the addresses the watcher now knows makes \<^verbatim>\<open>Next\<close> return an
  empty list of updates with a nil error.
\<close>

theorem same_addresses_no_updates:
  assumes "Next c1 w = (Ok us1, w1)"
    and "sel c2 = SelRecv r2" and "err r2 = None" and "ep r2 = Some ev2"
    and "resolveSubsets (target w1) (Subsets (Object ev2)) Dlist.empty = Inr m2"
    and "keys m2 = keys (lastUpdates w1)"
  shows "Next c2 w1 = (Ok [], w1\<lparr>lastUpdates := m2\<rparr>)"
proof -
  from assms(1) have active: "\<not> cancelled w1" unfolding Next_Ok by auto
  have "mset (addUpdates (addOrder c2) (lastUpdates w1) m2) = {#}"
    and "mset (deleteUpdates (delOrder c2) (lastUpdates w1) m2) = {#}"
    by (simp_all add: mset_addUpdates mset_deleteUpdates assms(6))
  then have "addUpdates (addOrder c2) (lastUpdates w1) m2 = []"
    and "deleteUpdates (delOrder c2) (lastUpdates w1) m2 = []"
    by simp_all
  with Next_received [OF active assms(2-5)] show ?thesis by simp
qed

text \<open>
  The same at two identical events, ranged over in different orders.
\<close>

theorem same_addresses_no_updates_witness:
  "Next (received [httpSubset [''10.0.0.1'', ''10.0.0.2'']] [] []) (freshWatcher firstPortTarget) =
     (Ok [addOf ''10.0.0.2:80'', addOf ''10.0.0.1:80''],
      (freshWatcher firstPortTarget)\<lparr>lastUpdates := Dlist [''10.0.0.2:80'', ''10.0.0.1:80'']\<rparr>) \<and>
   Next (received [httpSubset [''10.0.0.1'', ''10.0.0.2'']] [1] [1])
     ((freshWatcher firstPortTarget)\<lparr>lastUpdates := Dlist [''10.0.0.2:80'', ''10.0.0.1:80'']\<rparr>) =
     (Ok [], (freshWatcher firstPortTarget)\<lparr>lastUpdates := Dlist [''10.0.0.2:80'', ''10.0.0.1:80'']\<rparr>)"
proof -
  let ?ss = "[httpSubset [''10.0.0.1'', ''10.0.0.2'']]"
  let ?w1 = "(freshWatcher firstPortTarget)\<lparr>lastUpdates := Dlist [''10.0.0.2:80'', ''10.0.0.1:80'']\<rparr>"
  have h1: "Next (received ?ss [] []) (freshWatcher firstPortTarget) =
     (Ok [addOf ''10.0.0.2:80'', addOf ''10.0.0.1:80''], ?w1)"
    by (simp add: call_defs)
  have h2: "sel (received ?ss [1] [1]) = SelRecv \<lparr>ep = Some \<lparr>Object = endpointsOf ?ss\<rparr>, err = None\<rparr>"
    by (simp add: received_def)
  have h3: "err \<lparr>ep = Some \<lparr>Object = endpointsOf ?ss\<rparr>, err = None\<rparr> = None" by simp
  have h4: "ep \<lparr>ep = Some \<lparr>Object = endpointsOf ?ss\<rparr>, err = None\<rparr> = Some \<lparr>Object = endpointsOf ?ss\<rparr>"
    by simp
  have h5: "resolveSubsets (target ?w1) (Subsets (Object \<lparr>Object = endpointsOf ?ss\<rparr>)) Dlist.empty =
      Inr (Dlist [''10.0.0.2:80'', ''10.0.0.1:80''])"
    by (simp add: call_defs)
  have h6: "keys (Dlist [''10.0.0.2:80'', ''10.0.0.1:80'']) = keys (lastUpdates ?w1)"
    by simp
  from same_addresses_no_updates [OF h1 h2 h3 h4 h5 h6] h1 show ?thesis
    by (simp add: freshWatcher_def)
qed

text \<open>
  C8 (duplicates collapse). When \<^verbatim>\<open>Next\<close> returns updates, the new map holds
  exactly the union of the addresses the subsets resolve to, no two updates of the
  batch have the same address, and no address has more than one add.
\<close>

theorem union_collapses_duplicates:
  assumes "Next c w = (Ok us, w')"
  shows "(\<exists>r ev. sel c = SelRecv r \<and> ep r = Some ev \<and>
            keys (lastUpdates w') = (\<Union>s \<in> set (Subsets (Object ev)). addressesOf (target w) s)) \<and>
         distinct (map Addr us) \<and>
         length (filter (\<lambda>u. Op u = Add \<and> Addr u = a) us) \<le> 1"
proof -
  from assms obtain r ev new where r: "sel c = SelRecv r" "ep r = Some ev"
    and new: "resolveSubsets (target w) (Subsets (Object ev)) Dlist.empty = Inr new"
    and us: "us = addUpdates (addOrder c) (lastUpdates w) new @
                  deleteUpdates (delOrder c) (lastUpdates w) new"
    and w': "w' = w\<lparr>lastUpdates := new\<rparr>"
    unfolding Next_Ok by blast
  have k: "keys (lastUpdates w') = (\<Union>s \<in> set (Subsets (Object ev)). addressesOf (target w) s)"
    using resolveSubsets_keys [OF new] by (simp add: w' keys_empty)
  have d: "distinct (map Addr us)"
    unfolding us by (auto simp: Addr_addUpdates Addr_deleteUpdates distinct_rangeKeys set_rangeKeys)
  have "length (filter (\<lambda>u. Op u = Add \<and> Addr u = a) us) \<le> 1"
    using d by (rule filter_key_le_1)
  with r k d show ?thesis by blast
qed

text \<open>
  The same at an event with two subsets that both resolve to 10.0.0.1:80.
\<close>

theorem union_collapses_duplicates_witness:
  "Next (received [httpSubset [''10.0.0.1''], httpSubset [''10.0.0.1'']] [] [])
     (freshWatcher firstPortTarget) =
     (Ok [addOf ''10.0.0.1:80''],
      (freshWatcher firstPortTarget)\<lparr>lastUpdates := Dlist [''10.0.0.1:80'']\<rparr>) \<and>
   distinct (map Addr [addOf ''10.0.0.1:80'']) \<and>
   length (filter (\<lambda>u. Op u = Add \<and> Addr u = ''10.0.0.1:80'') [addOf ''10.0.0.1:80'']) \<le> 1"
proof -
  have h: "Next (received [httpSubset [''10.0.0.1''], httpSubset [''10.0.0.1'']] [] [])
     (freshWatcher firstPortTarget) =
     (Ok [addOf ''10.0.0.1:80''],
      (freshWatcher firstPortTarget)\<lparr>lastUpdates := Dlist [''10.0.0.1:80'']\<rparr>)"
    by (simp add: call_defs)
  from union_collapses_duplicates [OF h, of "''10.0.0.1:80''"] h show ?thesis by blast
qed

text \<open>
  C10 (an event without subsets). On a watcher that is not stopped, a delivered
  event with an empty subset list is processed: \<^verbatim>\<open>Next\<close> returns one delete for
  each address it knew, no add, and the new map is empty.
\<close>

theorem empty_event_removes_all:
  assumes "\<not> cancelled w" and "sel c = SelRecv r" and "err r = None" and "ep r = Some ev"
    and "Subsets (Object ev) = []"
  shows "\<exists>us. Next c w = (Ok us, w\<lparr>lastUpdates := Dlist.empty\<rparr>) \<and>
           mset us = image_mset deleteOf (mset_set (keys (lastUpdates w))) \<and>
           (\<forall>u \<in> set us. Op u = Delete)"
proof -
  have "resolveSubsets (target w) (Subsets (Object ev)) Dlist.empty = Inr Dlist.empty"
    by (simp add: assms(5))
  from Next_received [OF assms(1-4) this]
  have n: "Next c w =
      (Ok (addUpdates (addOrder c) (lastUpdates w) Dlist.empty @
           deleteUpdates (delOrder c) (lastUpdates w) Dlist.empty),
       w\<lparr>lastUpdates := Dlist.empty\<rparr>)" .
  have a: "addUpdates (addOrder c) (lastUpdates w) Dlist.empty = []"
    by (simp add: addUpdates_def rangeKeys_def)
  have m: "mset (deleteUpdates (delOrder c) (lastUpdates w) Dlist.empty) =
      image_mset deleteOf (mset_set (keys (lastUpdates w)))"
    by (simp add: mset_deleteUpdates keys_empty)
  have o: "\<forall>u \<in> set (deleteUpdates (delOrder c) (lastUpdates w) Dlist.empty). Op u = Delete"
    by (auto simp: deleteUpdates_def)
  from n a m o show ?thesis by simp
qed

text \<open>
  The same at a watcher that knows two addresses.
\<close>

theorem empty_event_removes_all_witness:
  "\<not> cancelled servingTwo \<and>
   Next (received [] [] []) servingTwo =
     (Ok [deleteOf ''10.0.0.1:80'', deleteOf ''10.0.0.2:80''],
      servingTwo\<lparr>lastUpdates := Dlist.empty\<rparr>)"
proof -
  have h: "\<not> cancelled servingTwo" by (simp add: servingTwo_def)
  have n: "Next (received [] [] []) servingTwo =
     (Ok [deleteOf ''10.0.0.1:80'', deleteOf ''10.0.0.2:80''],
      servingTwo\<lparr>lastUpdates := Dlist.empty\<rparr>)"
    by (simp add: call_defs)
  from empty_event_removes_all
    [OF h, of "received [] [] []" "\<lparr>ep = Some \<lparr>Object = endpointsOf []\<rparr>, err = None\<rparr>"
       "\<lparr>Object = endpointsOf []\<rparr>"] h n
  show ?thesis by (simp add: received_def endpointsOf_def)
qed

end
